theory Spec2Isabelle
  imports Complex_Main "HOL-Library.Multiset" "HOL-Library.Char_ord" "HOL-Library.List_Lexorder"
begin

section \<open>Python values and errors\<close>

text \<open>
  The generator in \<^verbatim>\<open>helper.py\<close> works on parsed JSON, typed \<^verbatim>\<open>Dict[str, Any]\<close>: a value is
  \<^verbatim>\<open>None\<close>, a boolean, an integer, a string, a list or a dictionary. A dictionary is the
  list of its items in insertion order, each key once, and is read through \<open>map_of\<close>.
  A string is a \<open>string\<close> whose characters stand for code points below 256. JSON floats
  and text outside that range are not part of the model.
\<close>

datatype json =
    JNull
  | JBool bool
  | JInt int
  | JStr string
  | JList "json list"
  | JDict "(string \<times> json) list"

text \<open>
  The exceptions that the modelled code can raise. \<open>Unmodelled\<close> is not a Python
  exception: it marks the one place (\<open>sorted\<close> on list-valued keys) where the model
  does not follow the interpreter; \<open>LibraryError\<close> is any exception coming out of the
  operating system or out of reportlab.
\<close>

datatype error =
    ValueError string
  | AttributeError
  | TypeError
  | IndexError
  | LibraryError string
  | Unmodelled

definition bind_err :: "error + 'a \<Rightarrow> ('a \<Rightarrow> error + 'b) \<Rightarrow> error + 'b" where
  "bind_err m f = (case m of Inl e \<Rightarrow> Inl e | Inr x \<Rightarrow> f x)"

text \<open>Python truthiness, as used by \<^verbatim>\<open>if x:\<close>.\<close>

fun truthy :: "json \<Rightarrow> bool" where
  "truthy JNull = False"
| "truthy (JBool b) = b"
| "truthy (JInt i) = (i \<noteq> 0)"
| "truthy (JStr s) = (s \<noteq> [])"
| "truthy (JList xs) = (xs \<noteq> [])"
| "truthy (JDict kvs) = (kvs \<noteq> [])"

text \<open>\<^verbatim>\<open>d.get(k, default)\<close>; only a dictionary has the method.\<close>

fun get :: "json \<Rightarrow> string \<Rightarrow> json \<Rightarrow> error + json" where
  "get (JDict kvs) k dflt = Inr (case map_of kvs k of Some v \<Rightarrow> v | None \<Rightarrow> dflt)"
| "get _ k dflt = Inl AttributeError"

text \<open>Iteration (\<^verbatim>\<open>for x in v\<close>, \<^verbatim>\<open>sorted(v)\<close>) and \<^verbatim>\<open>len(v)\<close>.\<close>

fun iter :: "json \<Rightarrow> error + json list" where
  "iter (JList xs) = Inr xs"
| "iter (JStr s) = Inr (map (\<lambda>c. JStr [c]) s)"
| "iter (JDict kvs) = Inr (map (\<lambda>kv. JStr (fst kv)) kvs)"
| "iter _ = Inl TypeError"

fun len :: "json \<Rightarrow> error + nat" where
  "len (JList xs) = Inr (length xs)"
| "len (JStr s) = Inr (length s)"
| "len (JDict kvs) = Inr (length kvs)"
| "len _ = Inl TypeError"

text \<open>
  The library functions the code calls on strings, taken as parameters: \<^verbatim>\<open>str.upper\<close>,
  \<^verbatim>\<open>html.unescape\<close> on a string, and \<^verbatim>\<open>str()\<close> of a list or dictionary. The flowables
  are the reportlab objects the code constructs, as data: a paragraph is the text and the
  style it is built from, a spacer its width and height. reportlab parses the markup of
  a paragraph when the paragraph is built and may reject it there; in the model every
  failure of reportlab is a failure of \<open>doc_build\<close> below, apart from the one that the
  code itself catches, around the keep-together group.
\<close>

datatype style = SectionHeader | LineItemHeader | CommentLabel | CommentText | MediaReference

datatype flowable =
    Paragraph json style
  | Spacer real real
  | CheckboxMarker string
  | KeepTogether "flowable list"

record pylib =
  str_upper :: "string \<Rightarrow> string"
  html_unescape :: "string \<Rightarrow> string"
  container_str :: "json \<Rightarrow> string"

text \<open>Decimal digits of an integer, \<^verbatim>\<open>str(n)\<close>.\<close>

function nat_str :: "nat \<Rightarrow> string" where
  "nat_str n = (if n < 10 then [char_of (48 + n)] else nat_str (n div 10) @ [char_of (48 + n mod 10)])"
  by pat_completeness auto
termination
  by (relation "measure id") auto

declare nat_str.simps [simp del]

definition int_str :: "int \<Rightarrow> string" where
  "int_str i = (if i < 0 then CHR ''-'' # nat_str (nat (- i)) else nat_str (nat i))"

text \<open>The text an f-string puts in place of \<^verbatim>\<open>{v}\<close>.\<close>

fun py_str :: "pylib \<Rightarrow> json \<Rightarrow> string" where
  "py_str L (JStr s) = s"
| "py_str L (JInt i) = int_str i"
| "py_str L (JBool b) = (if b then ''True'' else ''False'')"
| "py_str L JNull = ''None''"
| "py_str L v = container_str L v"

text \<open>\<^verbatim>\<open>v.upper()\<close>; only a string has the method.\<close>

fun py_upper :: "pylib \<Rightarrow> json \<Rightarrow> error + string" where
  "py_upper L (JStr s) = Inr (str_upper L s)"
| "py_upper L _ = Inl AttributeError"

section \<open>Numbering: \<^verbatim>\<open>convert_to_roman\<close> and \<^verbatim>\<open>convert_to_letter\<close>\<close>

definition val :: "int list" where
  "val = [1000, 900, 500, 400, 100, 90, 50, 40, 10, 9, 5, 4, 1]"

definition syms :: "string list" where
  "syms = [''M'', ''CM'', ''D'', ''CD'', ''C'', ''XC'', ''L'', ''XL'', ''X'', ''IX'', ''V'', ''IV'', ''I'']"

text \<open>
  The inner loop \<^verbatim>\<open>for _ in range(k): roman_num += syms[i]; num -= val[i]\<close>; the pair is
  \<open>(roman_num, num)\<close>.
\<close>

primrec for_range :: "nat \<Rightarrow> string \<Rightarrow> int \<Rightarrow> string \<times> int \<Rightarrow> string \<times> int" where
  "for_range 0 symb v st = st"
| "for_range (Suc k) symb v st = for_range k symb v (fst st @ symb, snd st - v)"

text \<open>
  The outer loop \<^verbatim>\<open>while num > 0\<close> with the index \<open>i\<close> into both tables. Reading
  \<^verbatim>\<open>val[i]\<close> past the end of the table raises \<^verbatim>\<open>IndexError\<close> in Python.
\<close>

function roman_while :: "int \<Rightarrow> nat \<Rightarrow> string \<Rightarrow> error + string" where
  "roman_while num i roman_num =
     (if num > 0 then
        (if i < length val then
           (let st = for_range (nat (num div (val ! i))) (syms ! i) (val ! i) (roman_num, num)
            in roman_while (snd st) (i + 1) (fst st))
         else Inl IndexError)
      else Inr roman_num)"
  by pat_completeness auto
termination
  by (relation "measure (\<lambda>(num, i, roman_num). length val - i)") auto

declare roman_while.simps [simp del]

definition convert_to_roman :: "int \<Rightarrow> error + string" where
  "convert_to_roman num = roman_while num 0 ''''"

text \<open>\<^verbatim>\<open>chr(65 + k)\<close>; the callers below only pass \<open>0 \<le> k < 26\<close>.\<close>

definition chr :: "int \<Rightarrow> char" where
  "chr k = char_of k"

function convert_to_letter :: "int \<Rightarrow> string" where
  "convert_to_letter num =
     (if num < 0 then ''''
      else if num < 26 then [chr (65 + num)]
      else convert_to_letter (num div 26 - 1) @ [chr (65 + num mod 26)])"
  by pat_completeness auto
termination
  by (relation "measure nat") auto

declare convert_to_letter.simps [simp del]

section \<open>Input normalisation\<close>

text \<open>
  \<^verbatim>\<open>escape_html_entities(text)\<close>. \<^verbatim>\<open>html.unescape(s)\<close> returns \<^verbatim>\<open>s\<close> itself when
  \<^verbatim>\<open>'&' not in s\<close> and otherwise runs a regular-expression substitution, which needs a
  string; the membership test needs an iterable.
\<close>

fun html_unescape_any :: "pylib \<Rightarrow> json \<Rightarrow> error + json" where
  "html_unescape_any L (JStr s) = Inr (JStr (html_unescape L s))"
| "html_unescape_any L (JList xs) = (if JStr ''&'' \<in> set xs then Inl TypeError else Inr (JList xs))"
| "html_unescape_any L (JDict kvs) =
     (if ''&'' \<in> set (map fst kvs) then Inl TypeError else Inr (JDict kvs))"
| "html_unescape_any L _ = Inl TypeError"

definition escape_html_entities :: "pylib \<Rightarrow> json \<Rightarrow> error + json" where
  "escape_html_entities L text =
     (if \<not> truthy text then Inr (JStr '''') else html_unescape_any L text)"

text \<open>The loop \<^verbatim>\<open>for field in [...]\<close> of \<^verbatim>\<open>get_comment_text\<close>.\<close>

fun first_field :: "pylib \<Rightarrow> json \<Rightarrow> string list \<Rightarrow> error + json" where
  "first_field L comment [] = Inr (JStr '''')"
| "first_field L comment (field # rest) =
     bind_err (get comment field JNull) (\<lambda>v.
       if truthy v then escape_html_entities L v else first_field L comment rest)"

definition get_comment_text :: "pylib \<Rightarrow> json \<Rightarrow> error + json" where
  "get_comment_text L comment =
     first_field L comment [''text'', ''content'', ''commentText'', ''value'']"

text \<open>
  The loop \<^verbatim>\<open>for comment in comments\<close> of \<^verbatim>\<open>get_inspection_status\<close>: \<open>True\<close> when it
  returns \<^verbatim>\<open>'D'\<close>, \<open>False\<close> when it runs to its end.
\<close>

fun deficient_comment_loop :: "json list \<Rightarrow> error + bool" where
  "deficient_comment_loop [] = Inr False"
| "deficient_comment_loop (comment # comments) =
     bind_err (get comment ''type'' JNull) (\<lambda>t.
       if t = JStr ''deficient'' then Inr True
       else bind_err (get comment ''isFlagged'' JNull) (\<lambda>flagged.
         if truthy flagged then Inr True else deficient_comment_loop comments))"

definition get_inspection_status :: "pylib \<Rightarrow> json \<Rightarrow> error + string" where
  "get_inspection_status L line_item =
     bind_err (get line_item ''inspectionStatus'' JNull) (\<lambda>explicit.
     bind_err (if truthy explicit
               then bind_err (py_upper L explicit) (\<lambda>status.
                      Inr (if status \<in> set [''I'', ''NI'', ''NP'', ''D''] then Some status else None))
               else Inr None) (\<lambda>returned.
     case returned of
       Some status \<Rightarrow> Inr status
     | None \<Rightarrow>
         bind_err (get line_item ''isDeficient'' JNull) (\<lambda>is_deficient.
           if truthy is_deficient then Inr ''D''
           else
             bind_err (get line_item ''comments'' (JList [])) (\<lambda>comments.
             bind_err (iter comments) (\<lambda>cs.
             bind_err (deficient_comment_loop cs) (\<lambda>found.
               if found then Inr ''D''
               else if truthy comments then Inr ''I''
               else Inr ''''))))))"

section \<open>Sorting by the \<^verbatim>\<open>order\<close> key\<close>

fun map_err :: "('a \<Rightarrow> error + 'b) \<Rightarrow> 'a list \<Rightarrow> error + 'b list" where
  "map_err f [] = Inr []"
| "map_err f (x # xs) = bind_err (f x) (\<lambda>y. bind_err (map_err f xs) (\<lambda>ys. Inr (y # ys)))"

text \<open>The key function \<^verbatim>\<open>lambda x: x.get('order', 0)\<close>.\<close>

definition order_key :: "json \<Rightarrow> error + json" where
  "order_key x = get x ''order'' (JInt 0)"

text \<open>
  Python compares numbers with numbers (a boolean is the number 0 or 1) and strings with
  strings; \<^verbatim>\<open><\<close> between a number and a string, or with \<^verbatim>\<open>None\<close> or a dictionary on
  either side, raises \<^verbatim>\<open>TypeError\<close>.
\<close>

fun num_key :: "json \<Rightarrow> int option" where
  "num_key (JInt i) = Some i"
| "num_key (JBool b) = Some (if b then 1 else 0)"
| "num_key _ = None"

fun str_key :: "json \<Rightarrow> string option" where
  "str_key (JStr s) = Some s"
| "str_key _ = None"

fun is_list :: "json \<Rightarrow> bool" where
  "is_list (JList xs) = True"
| "is_list _ = False"

text \<open>
  \<^verbatim>\<open>sorted(v, key=lambda x: x.get('order', 0))\<close>. The keys are computed once, for every
  element; the sort is Python's stable ascending sort, which compares keys only. With
  fewer than two elements nothing is compared. With two or more, every key takes part in
  a comparison, so the sort succeeds exactly when the keys are all numbers or all strings.
  Keys that are lists are compared element by element by Python, and whether that raises
  depends on the comparisons the sorting algorithm happens to make: this case is
  \<open>Unmodelled\<close>.
\<close>

definition sorted_by_order :: "json \<Rightarrow> error + json list" where
  "sorted_by_order v =
     bind_err (iter v) (\<lambda>xs.
     bind_err (map_err order_key xs) (\<lambda>keys.
       if length xs \<le> 1 then Inr xs
       else if list_all (\<lambda>k. num_key k \<noteq> None) keys
         then Inr (map snd (sort_key fst (zip (map (\<lambda>k. the (num_key k)) keys) xs)))
       else if list_all (\<lambda>k. str_key k \<noteq> None) keys
         then Inr (map snd (sort_key fst (zip (map (\<lambda>k. the (str_key k)) keys) xs)))
       else if list_ex is_list keys then Inl Unmodelled
       else Inl TypeError))"

section \<open>Content builder: \<^verbatim>\<open>generate_trec_pdf\<close>\<close>

definition inch :: real where
  "inch = 72"

text \<open>\<^verbatim>\<open>comment_text.replace('\n', '<br/>')\<close>.\<close>

definition replace_newlines :: "string \<Rightarrow> string" where
  "replace_newlines s = concat (map (\<lambda>c. if c = CHR 0x0A then ''<br/>'' else [c]) s)"

text \<open>
  A \<^verbatim>\<open>for x in xs:\<close> loop whose body updates one variable and may raise: the first
  exception ends the loop.
\<close>

fun for_each :: "('a \<Rightarrow> 's \<Rightarrow> error + 's) \<Rightarrow> 'a list \<Rightarrow> 's \<Rightarrow> error + 's" where
  "for_each body [] st = Inr st"
| "for_each body (x # xs) st = bind_err (body x st) (for_each body xs)"

text \<open>
  Lines 436 to 443, the media note of one comment: the paragraphs to append (none or
  one). It is the third part of the body of \<^verbatim>\<open>for comment in sorted_comments\<close>.
\<close>

definition media_reference :: "json \<Rightarrow> error + flowable list" where
  "media_reference comment =
     bind_err (get comment ''photos'' (JList [])) (\<lambda>photos.
     bind_err (get comment ''videos'' (JList [])) (\<lambda>videos.
     bind_err (len photos) (\<lambda>n_photos.
     bind_err (len videos) (\<lambda>n_videos.
       let total_media = n_photos + n_videos in
       Inr (if total_media > 0
            then [Paragraph (JStr (''See attached media ('' @ nat_str total_media @ '' item''
                                    @ (if total_media > 1 then ''s'' else '''') @ '')''))
                    MediaReference]
            else [])))))"

text \<open>
  The body of \<^verbatim>\<open>for comment in sorted_comments\<close>, in its three parts. Lines 421 to 427,
  the comment label: the paragraphs to append (none or one).
\<close>

definition comment_label_part :: "pylib \<Rightarrow> json \<Rightarrow> error + flowable list" where
  "comment_label_part L comment =
     bind_err (get comment ''label'' (JStr '''')) (\<lambda>comment_label.
     bind_err (get comment ''commentNumber'' (JStr '''')) (\<lambda>comment_number.
       Inr (if truthy comment_label
            then [Paragraph (if truthy comment_number
                             then JStr (py_str L comment_number @ ''. '' @ py_str L comment_label)
                             else comment_label) CommentLabel]
            else [])))"

text \<open>
  Lines 429 to 434, the comment text; \<^verbatim>\<open>.replace\<close> is a method of strings only.
\<close>

definition comment_text_part :: "pylib \<Rightarrow> json \<Rightarrow> error + flowable list" where
  "comment_text_part L comment =
     bind_err (get_comment_text L comment) (\<lambda>comment_text.
       if truthy comment_text
       then (case comment_text of
               JStr s \<Rightarrow> Inr [Paragraph (JStr (replace_newlines s)) CommentText]
             | _ \<Rightarrow> Inl AttributeError)
       else Inr [])"

text \<open>The whole body; the state is \<^verbatim>\<open>line_item_content\<close>.\<close>

definition comment_body :: "pylib \<Rightarrow> json \<Rightarrow> flowable list \<Rightarrow> error + flowable list" where
  "comment_body L comment line_item_content =
     bind_err (comment_label_part L comment) (\<lambda>label.
     bind_err (comment_text_part L comment) (\<lambda>text.
     bind_err (media_reference comment) (\<lambda>media.
       Inr (line_item_content @ label @ text @ media))))"

text \<open>
  The body of \<^verbatim>\<open>for item_idx, line_item in enumerate(sorted_line_items)\<close>, in two
  parts. Lines 397 to 446 build \<^verbatim>\<open>line_item_content\<close>.
\<close>

definition line_item_content :: "pylib \<Rightarrow> nat \<times> json \<Rightarrow> error + flowable list" where
  "line_item_content L indexed =
     (let item_idx = fst indexed; line_item = snd indexed;
          item_letter = convert_to_letter (int item_idx) in
      bind_err (get line_item ''title'' (JStr '''')) (\<lambda>title.
      bind_err (get line_item ''name'' title) (\<lambda>item_name.
      let line_item_header = item_letter @ ''. '' @ py_str L item_name in
      bind_err (get_inspection_status L line_item) (\<lambda>status.
      let content0 = [CheckboxMarker status, Paragraph (JStr line_item_header) LineItemHeader] in
      bind_err (get line_item ''comments'' (JList [])) (\<lambda>comments.
      bind_err (sorted_by_order comments) (\<lambda>sorted_comments.
      bind_err (for_each (comment_body L) sorted_comments content0) (\<lambda>content1.
        Inr (content1 @ [Spacer 1 (0.1 * inch)]))))))))"

text \<open>
  Lines 448 to 453 add it to \<^verbatim>\<open>story\<close>. The \<^verbatim>\<open>try\<close> around
  \<^verbatim>\<open>KeepTogether(line_item_content)\<close> has a bare \<^verbatim>\<open>except\<close>: if reportlab's constructor
  raises, whatever the exception, the content is appended block by block. Whether the
  constructor raises on a given content is the parameter \<open>keep_together_raises\<close>.
\<close>

definition line_item_body ::
  "pylib \<Rightarrow> (flowable list \<Rightarrow> bool) \<Rightarrow> nat \<times> json \<Rightarrow> flowable list \<Rightarrow> error + flowable list"
where
  "line_item_body L keep_together_raises indexed story =
     bind_err (line_item_content L indexed) (\<lambda>content.
       Inr (if keep_together_raises content
            then story @ content
            else story @ [KeepTogether content]))"

text \<open>Lines 381 to 385: the section number.\<close>

definition section_number :: "nat \<Rightarrow> json \<Rightarrow> error + json" where
  "section_number section_idx section =
     bind_err (get section ''sectionNumber'' JNull) (\<lambda>explicit.
       if truthy explicit then Inr explicit
       else bind_err (convert_to_roman (int section_idx + 1)) (\<lambda>r. Inr (JStr r)))"

text \<open>The body of \<^verbatim>\<open>for section_idx, section in enumerate(sorted_sections)\<close>.\<close>

definition section_body ::
  "pylib \<Rightarrow> (flowable list \<Rightarrow> bool) \<Rightarrow> nat \<times> json \<Rightarrow> flowable list \<Rightarrow> error + flowable list"
where
  "section_body L keep_together_raises indexed story =
     (let section_idx = fst indexed; section = snd indexed in
      bind_err (section_number section_idx section) (\<lambda>section_num.
      bind_err (get section ''name'' (JStr '''')) (\<lambda>name.
      bind_err (py_upper L name) (\<lambda>section_name.
      let section_header = py_str L section_num @ ''. '' @ section_name;
          story1 = story @ [Paragraph (JStr section_header) SectionHeader] in
      bind_err (get section ''lineItems'' (JList [])) (\<lambda>line_items.
      bind_err (sorted_by_order line_items) (\<lambda>sorted_line_items.
      bind_err (for_each (line_item_body L keep_together_raises)
                  (enumerate 0 sorted_line_items) story1) (\<lambda>story2.
        Inr (story2 @ [Spacer 1 (0.2 * inch)]))))))))"

text \<open>Lines 354 to 456: the story, from \<^verbatim>\<open>sorted(sections, ...)\<close> to the end of the loop.\<close>

definition build_story ::
  "pylib \<Rightarrow> (flowable list \<Rightarrow> bool) \<Rightarrow> json list \<Rightarrow> error + flowable list"
where
  "build_story L keep_together_raises sections =
     bind_err (sorted_by_order (JList sections)) (\<lambda>sorted_sections.
       for_each (section_body L keep_together_raises) (enumerate 0 sorted_sections) [])"

text \<open>\<^verbatim>\<open>metadata.get('reportId', metadata.get('report_id', 'N/A'))\<close>.\<close>

definition report_id_of :: "(string \<times> json) list \<Rightarrow> json" where
  "report_id_of metadata =
     (case map_of metadata ''reportId'' of
        Some v \<Rightarrow> v
      | None \<Rightarrow> (case map_of metadata ''report_id'' of Some v \<Rightarrow> v | None \<Rightarrow> JStr ''N/A''))"

text \<open>
  What \<^verbatim>\<open>doc.build(story, canvasmaker=create_canvas)\<close> receives: the file name given to
  \<^verbatim>\<open>SimpleDocTemplate\<close>, the story, and the report identifier captured by
  \<^verbatim>\<open>create_canvas\<close> (its \<^verbatim>\<open>checkbox_data\<close> is always the empty list). Page size,
  margins and styles are constants of the code.
\<close>

record document =
  doc_filename :: string
  doc_report_id :: json
  doc_story :: "flowable list"

text \<open>
  The file system is a state \<open>'fs\<close>, touched through \<^verbatim>\<open>os.path.dirname\<close>,
  \<^verbatim>\<open>os.path.exists\<close>, \<^verbatim>\<open>os.makedirs\<close> and reportlab's \<^verbatim>\<open>doc.build\<close>, which lays the
  story out and writes the file. An operation that raises returns the exception and the
  state it left behind. \<open>keep_together_fails\<close> tells on which contents reportlab's
  \<^verbatim>\<open>KeepTogether\<close> constructor raises.
\<close>

record 'fs oslib =
  path_dirname :: "string \<Rightarrow> string"
  path_exists :: "string \<Rightarrow> 'fs \<Rightarrow> bool"
  makedirs :: "string \<Rightarrow> 'fs \<Rightarrow> error option \<times> 'fs"
  keep_together_fails :: "flowable list \<Rightarrow> bool"
  doc_build :: "document \<Rightarrow> 'fs \<Rightarrow> error option \<times> 'fs"

definition generate_trec_pdf ::
  "pylib \<Rightarrow> 'fs oslib \<Rightarrow> json list \<Rightarrow> (string \<times> json) list \<Rightarrow> string \<Rightarrow> 'fs \<Rightarrow> (error + string) \<times> 'fs"
where
  "generate_trec_pdf L OS sections metadata output_path fs =
     (if sections = [] then (Inl (ValueError ''Sections list cannot be empty''), fs)
      else
        let output_dir = path_dirname OS output_path;
            made = (if output_dir \<noteq> '''' \<and> \<not> path_exists OS output_dir fs
                    then makedirs OS output_dir fs else (None, fs))
        in case fst made of
             Some e \<Rightarrow> (Inl e, snd made)
           | None \<Rightarrow>
               (case build_story L (keep_together_fails OS) sections of
                  Inl e \<Rightarrow> (Inl e, snd made)
                | Inr story \<Rightarrow>
                    (let built = doc_build OS
                           \<lparr>doc_filename = output_path,
                            doc_report_id = report_id_of metadata,
                            doc_story = story\<rparr> (snd made)
                     in case fst built of
                          Some e \<Rightarrow> (Inl e, snd built)
                        | None \<Rightarrow> (Inr output_path, snd built))))"

text \<open>
  \<^verbatim>\<open>TRECReportCanvas.draw_header\<close>, drawn on every page from the captured report
  identifier: the canvas calls in order (\<open>Rect x y width height\<close> is stroked, not filled).
\<close>

datatype canvas_op =
    SaveState
  | RestoreState
  | SetFont string nat
  | DrawString real real string
  | DrawCentredString real real string
  | Line real real real real
  | Rect real real real real

definition draw_header :: "pylib \<Rightarrow> json \<Rightarrow> canvas_op list" where
  "draw_header L report_id =
     (let col_width = 1.75 * inch; start_x = 0.5 * inch; checkbox_x = 0.5 * inch;
          box_width = 8 * inch - 0.5 * inch in
      [SaveState,
       SetFont ''Times-Roman'' 10,
       DrawString (0.5 * inch) (10.5 * inch) (''Report Identification: '' @ py_str L report_id),
       Line (0.5 * inch) (10.4 * inch) (8 * inch) (10.4 * inch),
       SetFont ''Times-Bold'' 10,
       DrawString start_x (10.25 * inch) ''I=Inspected'',
       DrawString (start_x + col_width) (10.25 * inch) ''NI=Not Inspected'',
       DrawString (start_x + col_width * 2) (10.25 * inch) ''NP=Not Present'',
       DrawString (start_x + col_width * 3) (10.25 * inch) ''D=Deficient'',
       SetFont ''Times-Bold'' 9,
       Rect (checkbox_x - 0.05 * inch) (10.05 * inch - 0.05 * inch) box_width (0.15 * inch),
       DrawCentredString (checkbox_x + 0.15 * inch) (10.05 * inch) ''I'',
       DrawCentredString (checkbox_x + 0.4 * inch) (10.05 * inch) ''NI'',
       DrawCentredString (checkbox_x + 0.7 * inch) (10.05 * inch) ''NP'',
       DrawCentredString (checkbox_x + 1.0 * inch) (10.05 * inch) ''D'',
       RestoreState])"

section \<open>Vocabulary of the specification\<close>

text \<open>
  The definitions of this section are not taken from the code. They say, in the words of
  the specification, what the code is compared with, and which inputs have the shape the
  data model of the specification gives them.
\<close>

text \<open>A field of a record; an absent field reads as \<^verbatim>\<open>None\<close>.\<close>

definition field :: "(string \<times> json) list \<Rightarrow> string \<Rightarrow> json" where
  "field kvs k = (case map_of kvs k of Some v \<Rightarrow> v | None \<Rightarrow> JNull)"

fun is_dict :: "json \<Rightarrow> bool" where
  "is_dict (JDict kvs) = True"
| "is_dict _ = False"

text \<open>A field that holds text when it holds anything: a string, or an empty value.\<close>

fun text_or_empty :: "json \<Rightarrow> bool" where
  "text_or_empty (JStr s) = True"
| "text_or_empty v = (if truthy v then False else True)"

fun text_of :: "json \<Rightarrow> string" where
  "text_of (JStr s) = s"
| "text_of _ = ''''"

subsection \<open>Status derivation\<close>

text \<open>Tier 1: the explicit status, valid only if its upper-case form is I, NI, NP or D.\<close>

definition explicit_status :: "pylib \<Rightarrow> (string \<times> json) list \<Rightarrow> string option" where
  "explicit_status L kvs =
     (let s = text_of (field kvs ''inspectionStatus'') in
      if s \<noteq> [] \<and> str_upper L s \<in> set [''I'', ''NI'', ''NP'', ''D'']
      then Some (str_upper L s) else None)"

definition comment_list :: "(string \<times> json) list \<Rightarrow> json list" where
  "comment_list kvs = (case map_of kvs ''comments'' of Some (JList cs) \<Rightarrow> cs | _ \<Rightarrow> [])"

text \<open>Tier 3: a comment tagged deficient-type, or flagged.\<close>

fun marks_deficient :: "json \<Rightarrow> bool" where
  "marks_deficient (JDict ckvs) =
     (if field ckvs ''type'' = JStr ''deficient'' then True else truthy (field ckvs ''isFlagged''))"
| "marks_deficient _ = False"

text \<open>The five tiers, first match wins.\<close>

definition derive_status :: "pylib \<Rightarrow> (string \<times> json) list \<Rightarrow> string" where
  "derive_status L kvs =
     (case explicit_status L kvs of
        Some s \<Rightarrow> s
      | None \<Rightarrow>
          if truthy (field kvs ''isDeficient'') then ''D''
          else if list_ex marks_deficient (comment_list kvs) then ''D''
          else if comment_list kvs \<noteq> [] then ''I''
          else '''')"

text \<open>
  A line item of the data model: its status, when present, is text, and its comments,
  when present, are a list of records.
\<close>

definition well_typed_line_item :: "(string \<times> json) list \<Rightarrow> bool" where
  "well_typed_line_item kvs =
     (text_or_empty (field kvs ''inspectionStatus'')
      \<and> (case map_of kvs ''comments'' of
            None \<Rightarrow> True
          | Some v \<Rightarrow> (case v of JList cs \<Rightarrow> list_all is_dict cs | _ \<Rightarrow> False)))"

subsection \<open>Comment text\<close>

definition alias_fields :: "string list" where
  "alias_fields = [''text'', ''content'', ''commentText'', ''value'']"

text \<open>The first non-empty value among the aliased fields, decoded; empty if there is none.\<close>

definition comment_text_spec :: "pylib \<Rightarrow> (string \<times> json) list \<Rightarrow> string" where
  "comment_text_spec L kvs =
     (case filter (\<lambda>s. s \<noteq> []) (map (\<lambda>f. text_of (field kvs f)) alias_fields) of
        [] \<Rightarrow> ''''
      | s # _ \<Rightarrow> html_unescape L s)"

definition well_typed_text :: "(string \<times> json) list \<Rightarrow> bool" where
  "well_typed_text kvs = list_all (\<lambda>f. text_or_empty (field kvs f)) alias_fields"

subsection \<open>Media\<close>



subsection \<open>Ordering\<close>

text \<open>A record whose order key is absent or a number, and the number it sorts by.\<close>

definition numeric_order :: "json \<Rightarrow> bool" where
  "numeric_order x =
     (case x of
        JDict kvs \<Rightarrow> (case map_of kvs ''order'' of None \<Rightarrow> True | Some v \<Rightarrow> num_key v \<noteq> None)
      | _ \<Rightarrow> False)"

definition order_num :: "json \<Rightarrow> int" where
  "order_num x =
     (case x of
        JDict kvs \<Rightarrow> (case map_of kvs ''order'' of None \<Rightarrow> 0 | Some v \<Rightarrow> the (num_key v))
      | _ \<Rightarrow> 0)"

subsection \<open>Roman numerals\<close>

text \<open>
  The standard subtractive scheme: go through the thirteen values from 1000 down to 1 and
  write each symbol as many times as its value fits into what is left.
\<close>

fun roman_greedy :: "int \<Rightarrow> (int \<times> string) list \<Rightarrow> string" where
  "roman_greedy n [] = ''''"
| "roman_greedy n (entry # table) =
     concat (replicate (nat (n div fst entry)) (snd entry)) @ roman_greedy (n mod fst entry) table"

subsection \<open>Sample inputs\<close>

text \<open>
  An instance of the library parameters for ASCII text without HTML entities, a file
  system that is the list of paths created so far, and a small report.
\<close>

definition ascii_upper :: "string \<Rightarrow> string" where
  "ascii_upper s =
     map (\<lambda>c. if CHR ''a'' \<le> c \<and> c \<le> CHR ''z'' then char_of (of_char c - (32::nat)) else c) s"

definition ascii_lib :: pylib where
  "ascii_lib = \<lparr>str_upper = ascii_upper, html_unescape = (\<lambda>s. s), container_str = (\<lambda>v. '''')\<rparr>"

definition list_os :: "string list oslib" where
  "list_os =
     \<lparr>path_dirname = (\<lambda>p. ''out''),
      path_exists = (\<lambda>p fs. p \<in> set fs),
      makedirs = (\<lambda>p fs. (None, p # fs)),
      keep_together_fails = (\<lambda>content. False),
      doc_build = (\<lambda>doc fs. (None, doc_filename doc # fs))\<rparr>"

definition grading_item :: json where
  "grading_item =
     JDict [(''order'', JInt 1), (''name'', JStr ''Grading''),
            (''comments'', JList [
               JDict [(''order'', JInt 5), (''text'', JStr ''later'')],
               JDict [(''text'', JStr ''first''), (''photos'', JList [JStr ''p''])]])]"

definition site_section :: json where
  "site_section =
     JDict [(''name'', JStr ''site''),
            (''lineItems'', JList [
               grading_item,
               JDict [(''title'', JStr ''Drainage''), (''isDeficient'', JBool True)]])]"

definition demo_sections :: "json list" where
  "demo_sections =
     [JDict [(''order'', JInt 2), (''name'', JStr ''roof'')],
      site_section,
      JDict [(''order'', JInt 0), (''name'', JStr ''walls'')]]"

definition grading_content :: "flowable list" where
  "grading_content =
     [CheckboxMarker ''I'',
      Paragraph (JStr ''B. Grading'') LineItemHeader,
      Paragraph (JStr ''first'') CommentText,
      Paragraph (JStr ''See attached media (1 item)'') MediaReference,
      Paragraph (JStr ''later'') CommentText,
      Spacer 1 (0.1 * inch)]"

definition site_blocks :: "flowable list" where
  "site_blocks =
     [Paragraph (JStr ''I. SITE'') SectionHeader,
      KeepTogether
        [CheckboxMarker ''D'',
         Paragraph (JStr ''A. Drainage'') LineItemHeader,
         Spacer 1 (0.1 * inch)],
      KeepTogether grading_content,
      Spacer 1 (0.2 * inch)]"

definition demo_story :: "flowable list" where
  "demo_story =
     site_blocks @
     [Paragraph (JStr ''II. WALLS'') SectionHeader, Spacer 1 (0.2 * inch),
      Paragraph (JStr ''III. ROOF'') SectionHeader, Spacer 1 (0.2 * inch)]"

section \<open>Properties of the numbering\<close>

lemma for_range_closed:
  "for_range k symb v st = (fst st @ concat (replicate k symb), snd st - int k * v)"
  by (induction k arbitrary: st) (simp_all add: algebra_simps)

lemma for_range_mod:
  assumes "0 < v" "0 \<le> num"
  shows "snd (for_range (nat (num div v)) symb v (r, num)) = num mod v"
proof -
  have "0 \<le> num div v" using assms by (simp add: pos_imp_zdiv_nonneg_iff)
  then have "int (nat (num div v)) * v = num - num mod v"
    by (simp add: minus_mod_eq_div_mult mult.commute)
  then show ?thesis by (simp add: for_range_closed)
qed

lemma roman_while_returns:
  "i < length val \<Longrightarrow> \<exists>s. roman_while num i r = Inr s"
proof (induction "length val - i" arbitrary: num i r)
  case 0
  then show ?case by simp
next
  case (Suc d)
  show ?case
  proof (cases "num > 0")
    case False
    then show ?thesis by (simp add: roman_while.simps)
  next
    case True
    let ?st = "for_range (nat (num div (val ! i))) (syms ! i) (val ! i) (r, num)"
    have unfold: "roman_while num i r = roman_while (snd ?st) (i + 1) (fst ?st)"
      using True Suc.prems by (subst roman_while.simps) (simp add: Let_def)
    show ?thesis
    proof (cases "i + 1 < length val")
      case True
      moreover have "d = length val - (i + 1)" using Suc.hyps(2) by simp
      ultimately show ?thesis using Suc.hyps(1) unfold by simp
    next
      case False
      then have i: "i = 12" using Suc.prems by (simp add: val_def)
      have "snd ?st = num mod 1"
        unfolding i using \<open>num > 0\<close> by (simp add: val_def for_range_closed)
      then have "snd ?st = 0" by simp
      then show ?thesis using unfold by (simp add: roman_while.simps)
    qed
  qed
qed

text \<open>
  C9. The Roman-numeral conversion is total on the integers: every input \<open>\<le> 0\<close> gives the
  empty string, and every input returns a string, that is, the table index never runs past
  the last entry (the index error is never reached), whatever the size of the input.
\<close>

theorem convert_to_roman_total:
  "(num \<le> 0 \<longrightarrow> convert_to_roman num = Inr '''') \<and> (\<exists>s. convert_to_roman num = Inr s)"
proof
  show "num \<le> 0 \<longrightarrow> convert_to_roman num = Inr ''''"
    by (simp add: convert_to_roman_def roman_while.simps)
  show "\<exists>s. convert_to_roman num = Inr s"
    unfolding convert_to_roman_def by (rule roman_while_returns) (simp add: val_def)
qed

theorem convert_to_roman_total_witness:
  "(-5::int) \<le> 0 \<and> convert_to_roman (-5) = Inr '''' \<and> (\<exists>s. convert_to_roman 4000 = Inr s)"
  using convert_to_roman_total [of "-5"] convert_to_roman_total [of 4000] by simp

lemma chr_letter_inj:
  assumes "0 \<le> a" "a < 26" "0 \<le> b" "b < 26" "chr (65 + a) = chr (65 + b)"
  shows "a = b"
proof -
  have "of_char (chr (65 + a)) = (65 + a) mod 256" "of_char (chr (65 + b)) = (65 + b) mod 256"
    by (simp_all add: chr_def)
  then have "(65 + a) mod 256 = (65 + b) mod 256" using assms(5) by simp
  then show ?thesis using assms(1-4) by simp
qed

lemma convert_to_letter_nonempty: "0 \<le> n \<Longrightarrow> convert_to_letter n \<noteq> []"
  by (subst convert_to_letter.simps) simp

lemma convert_to_letter_inj:
  "0 \<le> m \<Longrightarrow> 0 \<le> n \<Longrightarrow> convert_to_letter m = convert_to_letter n \<Longrightarrow> m = n"
proof (induction m arbitrary: n rule: convert_to_letter.induct)
  case (1 m)
  show ?case
  proof (cases "m < 26")
    case small_m: True
    show ?thesis
    proof (cases "n < 26")
      case True
      then show ?thesis
        using "1.prems" small_m
        by (simp add: convert_to_letter.simps [of m] convert_to_letter.simps [of n] chr_letter_inj)
    next
      case False
      then have "0 \<le> n div 26 - 1" by simp
      then have "convert_to_letter (n div 26 - 1) \<noteq> []" by (rule convert_to_letter_nonempty)
      then show ?thesis
        using "1.prems" small_m False
        by (simp add: convert_to_letter.simps [of m] convert_to_letter.simps [of n])
    qed
  next
    case big_m: False
    then have pm: "0 \<le> m div 26 - 1" by simp
    show ?thesis
    proof (cases "n < 26")
      case True
      have "convert_to_letter (m div 26 - 1) \<noteq> []" using pm by (rule convert_to_letter_nonempty)
      then show ?thesis
        using "1.prems" big_m True
        by (simp add: convert_to_letter.simps [of m] convert_to_letter.simps [of n])
    next
      case False
      then have pn: "0 \<le> n div 26 - 1" by simp
      from "1.prems" big_m False
      have eq: "convert_to_letter (m div 26 - 1) = convert_to_letter (n div 26 - 1)"
        and last: "chr (65 + m mod 26) = chr (65 + n mod 26)"
        by (simp_all add: convert_to_letter.simps [of m] convert_to_letter.simps [of n])
      have "m div 26 - 1 = n div 26 - 1"
        using "1.IH" [of "n div 26 - 1"] big_m "1.prems"(1) pm pn eq by simp
      moreover have "m mod 26 = n mod 26"
        using last by (intro chr_letter_inj) simp_all
      ultimately show ?thesis
        by (metis add_diff_cancel_right' diff_add_cancel mult_div_mod_eq)
    qed
  qed
qed

text \<open>
  C4. The line-item label is bijective base-26 numbering: a negative input gives the empty
  string, an input below 26 gives the single letter, any other input \<open>n\<close> gives the label of
  \<open>n div 26 - 1\<close> followed by the letter of \<open>n mod 26\<close>; and 0, 25, 26, 27, 51, 52 give
  A, Z, AA, AB, AZ, BA. Two different non-negative inputs never get the same label.
\<close>

theorem convert_to_letter_spec:
  "(n < 0 \<longrightarrow> convert_to_letter n = '''')
   \<and> (0 \<le> n \<and> n < 26 \<longrightarrow> convert_to_letter n = [chr (65 + n)])
   \<and> (26 \<le> n \<longrightarrow> convert_to_letter n = convert_to_letter (n div 26 - 1) @ [chr (65 + n mod 26)])
   \<and> convert_to_letter 0 = ''A'' \<and> convert_to_letter 25 = ''Z''
   \<and> convert_to_letter 26 = ''AA'' \<and> convert_to_letter 27 = ''AB''
   \<and> convert_to_letter 51 = ''AZ'' \<and> convert_to_letter 52 = ''BA''
   \<and> (0 \<le> m \<and> 0 \<le> n \<and> m \<noteq> n \<longrightarrow> convert_to_letter m \<noteq> convert_to_letter n)"
proof (intro conjI impI)
  show "convert_to_letter n = ''''" if "n < 0"
    using that by (simp add: convert_to_letter.simps [of n])
  show "convert_to_letter n = [chr (65 + n)]" if "0 \<le> n \<and> n < 26"
    using that by (simp add: convert_to_letter.simps [of n])
  show "convert_to_letter n = convert_to_letter (n div 26 - 1) @ [chr (65 + n mod 26)]"
    if "26 \<le> n"
    using that by (simp add: convert_to_letter.simps [of n])
  show "convert_to_letter 0 = ''A''" by code_simp
  show "convert_to_letter 25 = ''Z''" by code_simp
  show "convert_to_letter 26 = ''AA''" by code_simp
  show "convert_to_letter 27 = ''AB''" by code_simp
  show "convert_to_letter 51 = ''AZ''" by code_simp
  show "convert_to_letter 52 = ''BA''" by code_simp
  show "convert_to_letter m \<noteq> convert_to_letter n" if "0 \<le> m \<and> 0 \<le> n \<and> m \<noteq> n"
    using that convert_to_letter_inj [of m n] by blast
qed

theorem convert_to_letter_spec_witness:
  "(-1::int) < 0 \<and> convert_to_letter (-1) = ''''
   \<and> (0::int) \<le> 3 \<and> (3::int) < 26 \<and> convert_to_letter 3 = ''D''
   \<and> (26::int) \<le> 702 \<and> convert_to_letter 702 = convert_to_letter 26 @ ''A''
   \<and> (0::int) \<le> 25 \<and> (0::int) \<le> 26 \<and> (25::int) \<noteq> 26
   \<and> convert_to_letter 25 \<noteq> convert_to_letter 26"
  using convert_to_letter_spec [of "-1"] convert_to_letter_spec [of 3]
    convert_to_letter_spec [of 702] convert_to_letter_spec [of 26 25]
  by (simp add: chr_def char_of_def)

section \<open>Exceptions as values: basic facts\<close>

lemma bind_err_Inr [simp]: "bind_err (Inr x) f = f x"
  by (simp add: bind_err_def)

lemma bind_err_Inl [simp]: "bind_err (Inl e) f = Inl e"
  by (simp add: bind_err_def)

lemma bind_err_eq_Inr: "bind_err m f = Inr y \<longleftrightarrow> (\<exists>x. m = Inr x \<and> f x = Inr y)"
  by (cases m) simp_all

lemma bind_err_assoc: "bind_err (bind_err m f) g = bind_err m (\<lambda>x. bind_err (f x) g)"
  by (cases m) simp_all

lemma get_field: "get (JDict kvs) k JNull = Inr (field kvs k)"
  by (simp add: field_def)

lemma map_err_total:
  assumes "\<forall>x\<in>set xs. f x = Inr (g x)"
  shows "map_err f xs = Inr (map g xs)"
  using assms by (induction xs) simp_all

text \<open>
  A loop whose body only appends to its state returns the state followed by what each
  element contributes, in the order of the list.
\<close>

lemma for_each_append:
  assumes "\<And>x st. body x st = bind_err (body x []) (\<lambda>bs. Inr (st @ bs))"
  shows "for_each body xs st =
         bind_err (map_err (\<lambda>x. body x []) xs) (\<lambda>bss. Inr (st @ concat bss))"
proof (induction xs arbitrary: st)
  case Nil
  then show ?case by simp
next
  case (Cons x xs)
  show ?case
  proof (cases "body x []")
    case (Inl e)
    then show ?thesis by (simp add: assms [of x st])
  next
    case (Inr bs)
    then show ?thesis
      by (cases "map_err (\<lambda>x. body x []) xs") (simp_all add: assms [of x st] Cons.IH)
  qed
qed

section \<open>Status derivation\<close>

lemma deficient_comment_loop_dicts:
  "list_all is_dict cs \<Longrightarrow> deficient_comment_loop cs = Inr (list_ex marks_deficient cs)"
proof (induction cs)
  case Nil
  then show ?case by simp
next
  case (Cons c cs)
  then obtain ckvs where c: "c = JDict ckvs" by (cases c) auto
  from Cons show ?case by (auto simp: c field_def split: option.splits)
qed

lemma explicit_wins:
  assumes "explicit_status L kvs = Some s"
  shows "get_inspection_status L (JDict kvs) = Inr s"
proof -
  from assms obtain s0 where s0: "field kvs ''inspectionStatus'' = JStr s0" "s0 \<noteq> []"
    "str_upper L s0 \<in> set [''I'', ''NI'', ''NP'', ''D'']" "s = str_upper L s0"
    by (cases "field kvs ''inspectionStatus''")
       (auto simp: explicit_status_def Let_def split: if_splits)
  show ?thesis
    unfolding get_inspection_status_def get_field using s0 by auto
qed

lemma status_derivation:
  assumes "well_typed_line_item kvs"
  shows "get_inspection_status L (JDict kvs) = Inr (derive_status L kvs)"
proof (cases "explicit_status L kvs")
  case (Some s)
  then show ?thesis by (simp add: explicit_wins derive_status_def)
next
  case None
  have st: "bind_err (if truthy (field kvs ''inspectionStatus'')
               then bind_err (py_upper L (field kvs ''inspectionStatus'')) (\<lambda>status.
                      Inr (if status \<in> set [''I'', ''NI'', ''NP'', ''D''] then Some status else None))
               else Inr None) f = f None" for f :: "string option \<Rightarrow> error + string"
    using None assms
    by (cases "field kvs ''inspectionStatus''")
       (auto simp: explicit_status_def well_typed_line_item_def Let_def split: if_splits)
  show ?thesis
  proof (cases "map_of kvs ''comments''")
    case N: None
    show ?thesis
      unfolding get_inspection_status_def get_field bind_err_Inr st
      using None N by (simp add: derive_status_def comment_list_def)
  next
    case (Some v)
    then obtain cs where v: "v = JList cs" and cs: "list_all is_dict cs"
      using assms by (auto simp: well_typed_line_item_def split: json.splits)
    show ?thesis
      unfolding get_inspection_status_def get_field bind_err_Inr st
      using None Some v cs
      by (simp add: derive_status_def comment_list_def deficient_comment_loop_dicts)
  qed
qed

text \<open>
  C1. The status of a line item follows the five tiers, first match wins: a valid
  explicit status is returned whatever the other fields hold (also when the deficiency
  flag is set); for a line item of the data model the result is the one of the tiers,
  where an explicit status that is not one of I, NI, NP, D is passed over.
\<close>

theorem status_priority:
  "(explicit_status L kvs = Some s \<longrightarrow> get_inspection_status L (JDict kvs) = Inr s)
   \<and> (well_typed_line_item kvs \<longrightarrow>
        get_inspection_status L (JDict kvs) = Inr (derive_status L kvs))"
  using explicit_wins status_derivation by blast

theorem status_priority_witness:
  "explicit_status ascii_lib [(''inspectionStatus'', JStr ''ni''), (''isDeficient'', JBool True)]
     = Some ''NI''
   \<and> get_inspection_status ascii_lib
        (JDict [(''inspectionStatus'', JStr ''ni''), (''isDeficient'', JBool True)]) = Inr ''NI''
   \<and> well_typed_line_item
        [(''inspectionStatus'', JStr ''x''), (''comments'', JList [JDict [(''isFlagged'', JBool True)]])]
   \<and> get_inspection_status ascii_lib
        (JDict [(''inspectionStatus'', JStr ''x''),
                (''comments'', JList [JDict [(''isFlagged'', JBool True)]])]) = Inr ''D''"
proof -
  let ?a = "[(''inspectionStatus'', JStr ''ni''), (''isDeficient'', JBool True)]"
  let ?b = "[(''inspectionStatus'', JStr ''x''),
             (''comments'', JList [JDict [(''isFlagged'', JBool True)]])]"
  have a: "explicit_status ascii_lib ?a = Some ''NI''" by code_simp
  have b: "well_typed_line_item ?b" by code_simp
  have d: "derive_status ascii_lib ?b = ''D''" by code_simp
  show ?thesis
    using status_priority [of ascii_lib ?a "''NI''"] status_priority [of ascii_lib ?b] a b d
    by simp
qed

section \<open>Comment text\<close>

lemma first_field_spec:
  "list_all (\<lambda>f. text_or_empty (field kvs f)) fs \<Longrightarrow>
   first_field L (JDict kvs) fs =
     Inr (JStr (case filter (\<lambda>s. s \<noteq> []) (map (\<lambda>f. text_of (field kvs f)) fs) of
                  [] \<Rightarrow> '''' | s # _ \<Rightarrow> html_unescape L s))"
proof (induction fs)
  case Nil
  then show ?case by simp
next
  case (Cons f fs)
  show ?case
  proof (cases "field kvs f")
    case (JStr s)
    then show ?thesis using Cons
      by (simp add: get_field escape_html_entities_def del: get.simps)
  qed (use Cons in \<open>auto simp: get_field simp del: get.simps\<close>)
qed

text \<open>
  C7. For a comment whose aliased fields hold text when they hold anything, the extracted
  text is the first non-empty value among text, content, commentText, value, in this
  order, with HTML entities decoded, and the empty string if there is none.
\<close>

theorem comment_text_extraction:
  "well_typed_text kvs \<longrightarrow>
   get_comment_text L (JDict kvs) = Inr (JStr (comment_text_spec L kvs))"
  unfolding get_comment_text_def comment_text_spec_def well_typed_text_def alias_fields_def
  using first_field_spec [where fs = "[''text'', ''content'', ''commentText'', ''value'']"]
  by blast

theorem comment_text_extraction_witness:
  "well_typed_text [(''text'', JStr ''''), (''value'', JStr ''last''), (''content'', JStr ''second'')]
   \<and> get_comment_text ascii_lib
        (JDict [(''text'', JStr ''''), (''value'', JStr ''last''), (''content'', JStr ''second'')])
       = Inr (JStr ''second'')"
proof -
  let ?c = "[(''text'', JStr ''''), (''value'', JStr ''last''), (''content'', JStr ''second'')]"
  have w: "well_typed_text ?c" by code_simp
  have s: "comment_text_spec ascii_lib ?c = ''second''" by code_simp
  show ?thesis
    using comment_text_extraction [of ?c ascii_lib] w s by simp
qed

section \<open>Media note\<close>









section \<open>Sorting by the order key\<close>

lemma insort_key_decorated:
  assumes "fst p = f (snd p)" "\<forall>q\<in>set qs. fst q = f (snd q)"
  shows "map snd (insort_key fst p qs) = insort_key f (snd p) (map snd qs)"
  using assms by (induction qs) auto

lemma sort_key_decorated:
  assumes "\<forall>p\<in>set ps. fst p = f (snd p)"
  shows "map snd (sort_key fst ps) = sort_key f (map snd ps)"
  using assms
proof (induction ps)
  case Nil
  then show ?case by simp
next
  case (Cons p ps)
  have "\<forall>q\<in>set (sort_key fst ps). fst q = f (snd q)"
    using Cons.prems by simp
  then show ?case using Cons
    by (simp add: insort_key_decorated)
qed

text \<open>Sorting the elements paired with their keys is sorting the elements by the key.\<close>

lemma decorate_sort: "map snd (sort_key fst (zip (map f xs) xs)) = sort_key f xs"
proof -
  have "\<forall>p\<in>set (zip (map f xs) xs). fst p = f (snd p)"
    by (auto simp: in_set_zip)
  then have "map snd (sort_key fst (zip (map f xs) xs)) = sort_key f (map snd (zip (map f xs) xs))"
    by (rule sort_key_decorated)
  then show ?thesis by simp
qed

lemma order_key_numeric:
  "numeric_order x \<Longrightarrow> \<exists>k. order_key x = Inr k \<and> num_key k = Some (order_num x)"
  by (cases x) (auto simp: numeric_order_def order_key_def order_num_def split: option.splits)

lemma sorted_by_order_numeric:
  assumes "list_all numeric_order xs"
  shows "sorted_by_order (JList xs) = Inr (sort_key order_num xs)"
proof -
  define the_key where "the_key x = (case order_key x of Inr k \<Rightarrow> k | Inl e \<Rightarrow> JNull)" for x
  have k: "\<forall>x\<in>set xs. order_key x = Inr (the_key x)"
    using assms order_key_numeric by (fastforce simp: list_all_iff the_key_def)
  have n: "\<forall>x\<in>set xs. num_key (the_key x) = Some (order_num x)"
    using assms order_key_numeric by (fastforce simp: list_all_iff the_key_def)
  have keys: "map_err order_key xs = Inr (map the_key xs)"
    using k by (rule map_err_total)
  have all: "list_all (\<lambda>k. num_key k \<noteq> None) (map the_key xs)"
    using n by (simp add: list_all_iff)
  have m: "map (\<lambda>k. the (num_key k)) (map the_key xs) = map order_num xs"
    using n by simp
  show ?thesis
  proof (cases "length xs \<le> 1")
    case True
    then have "sort_key order_num xs = xs"
      by (cases xs) simp_all
    then show ?thesis using True by (simp add: sorted_by_order_def keys)
  next
    case False
    then have "sorted_by_order (JList xs) =
        Inr (map snd (sort_key fst (zip (map (\<lambda>k. the (num_key k)) (map the_key xs)) xs)))"
      unfolding sorted_by_order_def using all by (simp add: keys)
    then show ?thesis
      unfolding m by (simp add: decorate_sort)
  qed
qed

section \<open>The story as a concatenation\<close>

lemma comment_body_append:
  "comment_body L c st = bind_err (comment_body L c []) (\<lambda>bs. Inr (st @ bs))"
  unfolding comment_body_def
  by (simp add: bind_err_def split: sum.splits)

lemma line_item_content_shape:
  "line_item_content L (i, item) =
     bind_err (get item ''title'' (JStr '''')) (\<lambda>title.
     bind_err (get item ''name'' title) (\<lambda>item_name.
     bind_err (get_inspection_status L item) (\<lambda>status.
     bind_err (get item ''comments'' (JList [])) (\<lambda>comments.
     bind_err (sorted_by_order comments) (\<lambda>sorted_comments.
     bind_err (map_err (\<lambda>c. comment_body L c []) sorted_comments) (\<lambda>bss.
       Inr (CheckboxMarker status
            # Paragraph (JStr (convert_to_letter (int i) @ ''. '' @ py_str L item_name)) LineItemHeader
            # concat bss @ [Spacer 1 (0.1 * inch)])))))))"
  unfolding line_item_content_def Let_def fst_conv snd_conv
  by (simp add: for_each_append [of "comment_body L", OF comment_body_append] bind_err_assoc)

lemma line_item_body_append:
  "line_item_body L r p st = bind_err (line_item_body L r p []) (\<lambda>bs. Inr (st @ bs))"
  unfolding line_item_body_def
  by (cases "line_item_content L p") simp_all

lemma section_body_shape:
  "section_body L r (i, sec) st =
     bind_err (section_number i sec) (\<lambda>section_num.
     bind_err (get sec ''name'' (JStr '''')) (\<lambda>name.
     bind_err (py_upper L name) (\<lambda>section_name.
     bind_err (get sec ''lineItems'' (JList [])) (\<lambda>line_items.
     bind_err (sorted_by_order line_items) (\<lambda>sorted_line_items.
     bind_err (map_err (\<lambda>q. line_item_body L r q []) (enumerate 0 sorted_line_items)) (\<lambda>bss.
       Inr (st @ Paragraph (JStr (py_str L section_num @ ''. '' @ section_name)) SectionHeader
            # concat bss @ [Spacer 1 (0.2 * inch)])))))))"
  unfolding section_body_def Let_def fst_conv snd_conv
  by (simp add: for_each_append [of "line_item_body L r", OF line_item_body_append] bind_err_assoc)

lemma section_body_append:
  "section_body L r p st = bind_err (section_body L r p []) (\<lambda>bs. Inr (st @ bs))"
proof -
  obtain i sec where p: "p = (i, sec)" by (cases p)
  show ?thesis
    unfolding p section_body_shape
    by (simp add: bind_err_def split: sum.splits)
qed

lemma build_story_shape:
  "build_story L r sections =
     bind_err (sorted_by_order (JList sections)) (\<lambda>sorted_sections.
     bind_err (map_err (\<lambda>p. section_body L r p []) (enumerate 0 sorted_sections)) (\<lambda>bss.
       Inr (concat bss)))"
  unfolding build_story_def
  by (simp add: for_each_append [of "section_body L r", OF section_body_append])

text \<open>
  C6. Sorting a list of records whose order keys are numbers (absent keys count as 0)
  succeeds and gives the ascending, stable arrangement of the same records. The story
  is the blocks of the sorted sections one after the other; the blocks of a section are
  its header, the blocks of its sorted line items one after the other, and a spacer; the
  content of a line item is its marker, its header, the blocks of its sorted comments one
  after the other, and a spacer.
\<close>

theorem output_order:
  "(list_all numeric_order xs \<longrightarrow>
      sorted_by_order (JList xs) = Inr (sort_key order_num xs)
      \<and> sorted (map order_num (sort_key order_num xs))
      \<and> mset (sort_key order_num xs) = mset xs
      \<and> filter (\<lambda>y. order_num y = k) (sort_key order_num xs) = filter (\<lambda>x. order_num x = k) xs)
   \<and> (build_story L r sections = Inr story \<longrightarrow>
        (\<exists>ss bss. sorted_by_order (JList sections) = Inr ss
           \<and> map_err (\<lambda>p. section_body L r p []) (enumerate 0 ss) = Inr bss
           \<and> story = concat bss))
   \<and> (section_body L r (i, sec) [] = Inr blocks \<longrightarrow>
        (\<exists>v items header bss. get sec ''lineItems'' (JList []) = Inr v
           \<and> sorted_by_order v = Inr items
           \<and> map_err (\<lambda>q. line_item_body L r q []) (enumerate 0 items) = Inr bss
           \<and> blocks = header # concat bss @ [Spacer 1 (0.2 * inch)]))
   \<and> (line_item_content L (j, item) = Inr content \<longrightarrow>
        (\<exists>v cs marker header bss. get item ''comments'' (JList []) = Inr v
           \<and> sorted_by_order v = Inr cs
           \<and> map_err (\<lambda>c. comment_body L c []) cs = Inr bss
           \<and> content = marker # header # concat bss @ [Spacer 1 (0.1 * inch)]))"
proof (intro conjI impI)
  assume "list_all numeric_order xs"
  then show "sorted_by_order (JList xs) = Inr (sort_key order_num xs)"
    by (rule sorted_by_order_numeric)
  show "sorted (map order_num (sort_key order_num xs))"
    by (rule sorted_sort_key)
  show "mset (sort_key order_num xs) = mset xs"
    by (rule mset_sort)
  show "filter (\<lambda>y. order_num y = k) (sort_key order_num xs) = filter (\<lambda>x. order_num x = k) xs"
    by (rule sort_key_stable)
next
  assume "build_story L r sections = Inr story"
  then show "\<exists>ss bss. sorted_by_order (JList sections) = Inr ss
      \<and> map_err (\<lambda>p. section_body L r p []) (enumerate 0 ss) = Inr bss \<and> story = concat bss"
    unfolding build_story_shape by (auto simp: bind_err_eq_Inr)
next
  assume "section_body L r (i, sec) [] = Inr blocks"
  then show "\<exists>v items header bss. get sec ''lineItems'' (JList []) = Inr v
      \<and> sorted_by_order v = Inr items
      \<and> map_err (\<lambda>q. line_item_body L r q []) (enumerate 0 items) = Inr bss
      \<and> blocks = header # concat bss @ [Spacer 1 (0.2 * inch)]"
    unfolding section_body_shape by (auto simp: bind_err_eq_Inr)
next
  assume "line_item_content L (j, item) = Inr content"
  then show "\<exists>v cs marker header bss. get item ''comments'' (JList []) = Inr v
      \<and> sorted_by_order v = Inr cs
      \<and> map_err (\<lambda>c. comment_body L c []) cs = Inr bss
      \<and> content = marker # header # concat bss @ [Spacer 1 (0.1 * inch)]"
    unfolding line_item_content_shape by (auto simp: bind_err_eq_Inr)
qed

theorem output_order_witness:
  "list_all numeric_order demo_sections
   \<and> sorted_by_order (JList demo_sections)
       = Inr [site_section, JDict [(''order'', JInt 0), (''name'', JStr ''walls'')],
              JDict [(''order'', JInt 2), (''name'', JStr ''roof'')]]
   \<and> build_story ascii_lib (\<lambda>c. False) demo_sections = Inr demo_story
   \<and> (\<exists>ss bss. sorted_by_order (JList demo_sections) = Inr ss
         \<and> map_err (\<lambda>p. section_body ascii_lib (\<lambda>c. False) p []) (enumerate 0 ss) = Inr bss
         \<and> demo_story = concat bss)
   \<and> section_body ascii_lib (\<lambda>c. False) (0, site_section) [] = Inr site_blocks
   \<and> (\<exists>v items header bss. get site_section ''lineItems'' (JList []) = Inr v
         \<and> sorted_by_order v = Inr items
         \<and> map_err (\<lambda>q. line_item_body ascii_lib (\<lambda>c. False) q []) (enumerate 0 items) = Inr bss
         \<and> site_blocks = header # concat bss @ [Spacer 1 (0.2 * inch)])
   \<and> line_item_content ascii_lib (1, grading_item) = Inr grading_content
   \<and> (\<exists>v cs marker header bss. get grading_item ''comments'' (JList []) = Inr v
         \<and> sorted_by_order v = Inr cs
         \<and> map_err (\<lambda>c. comment_body ascii_lib c []) cs = Inr bss
         \<and> grading_content = marker # header # concat bss @ [Spacer 1 (0.1 * inch)])"
proof -
  have numeric: "list_all numeric_order demo_sections" by code_simp
  have sorted_demo: "sort_key order_num demo_sections
      = [site_section, JDict [(''order'', JInt 0), (''name'', JStr ''walls'')],
         JDict [(''order'', JInt 2), (''name'', JStr ''roof'')]]"
    by code_simp
  have story: "build_story ascii_lib (\<lambda>c. False) demo_sections = Inr demo_story"
    by code_simp
  have blocks: "section_body ascii_lib (\<lambda>c. False) (0, site_section) [] = Inr site_blocks"
    by code_simp
  have content: "line_item_content ascii_lib (1, grading_item) = Inr grading_content"
    by code_simp
  note order = output_order [of demo_sections 0 ascii_lib "\<lambda>c. False" demo_sections demo_story
        0 site_section site_blocks 1 grading_item grading_content]
  have "sorted_by_order (JList demo_sections) = Inr (sort_key order_num demo_sections)"
    using order [THEN conjunct1, rule_format, OF numeric] by (rule conjunct1)
  then have c1: "sorted_by_order (JList demo_sections)
       = Inr [site_section, JDict [(''order'', JInt 0), (''name'', JStr ''walls'')],
              JDict [(''order'', JInt 2), (''name'', JStr ''roof'')]]"
    by (simp only: sorted_demo)
  note c2 = order [THEN conjunct2, THEN conjunct1, rule_format, OF story]
  note c3 = order [THEN conjunct2, THEN conjunct2, THEN conjunct1, rule_format, OF blocks]
  note c4 = order [THEN conjunct2, THEN conjunct2, THEN conjunct2, rule_format, OF content]
  show ?thesis
    by (intro conjI numeric c1 story c2 blocks c3 content c4)
qed

section \<open>Section labels\<close>

lemma roman_greedy_zero: "roman_greedy 0 table = ''''"
  by (induction table) simp_all

lemma val_positive: "i < length val \<Longrightarrow> 0 < val ! i"
proof -
  have "list_all (\<lambda>v. 0 < v) val" by (simp add: val_def)
  then show "i < length val \<Longrightarrow> 0 < val ! i" by (simp add: list_all_length)
qed

lemma length_tables: "length val = 13" "length syms = 13"
  by (simp_all add: val_def syms_def)

text \<open>The loop with its index computes the scheme over the rest of the table.\<close>

lemma roman_while_greedy:
  assumes "0 \<le> num" "i \<le> length val" "i = length val \<longrightarrow> num = 0"
  shows "roman_while num i r = Inr (r @ roman_greedy num (drop i (zip val syms)))"
  using assms
proof (induction "length val - i" arbitrary: num i r)
  case 0
  then have "num = 0" by simp
  then show ?case by (simp add: roman_while.simps roman_greedy_zero)
next
  case (Suc d)
  then have i: "i < length val" by simp
  show ?case
  proof (cases "num > 0")
    case False
    then have "num = 0" using Suc.prems by simp
    then show ?thesis by (simp add: roman_while.simps roman_greedy_zero)
  next
    case True
    let ?v = "val ! i" and ?s = "syms ! i"
    let ?st = "for_range (nat (num div ?v)) ?s ?v (r, num)"
    have v: "0 < ?v" using i by (rule val_positive)
    have unfold: "roman_while num i r = roman_while (snd ?st) (i + 1) (fst ?st)"
      using True i by (subst roman_while.simps) (simp add: Let_def)
    have snd_st: "snd ?st = num mod ?v"
      using v Suc.prems(1) by (rule for_range_mod)
    have fst_st: "fst ?st = r @ concat (replicate (nat (num div ?v)) ?s)"
      by (simp add: for_range_closed)
    have last: "i + 1 = length val \<longrightarrow> num mod ?v = 0"
    proof
      assume "i + 1 = length val"
      then have "i = 12" by (simp add: length_tables)
      then show "num mod ?v = 0" by (simp add: val_def)
    qed
    have "roman_while (num mod ?v) (i + 1) (fst ?st) =
          Inr (fst ?st @ roman_greedy (num mod ?v) (drop (i + 1) (zip val syms)))"
    proof (rule Suc.hyps(1))
      show "d = length val - (i + 1)" using Suc.hyps(2) by simp
      show "0 \<le> num mod ?v" using v by simp
      show "i + 1 \<le> length val" using i by simp
      show "i + 1 = length val \<longrightarrow> num mod ?v = 0" by (rule last)
    qed
    moreover have "drop i (zip val syms) = (?v, ?s) # drop (i + 1) (zip val syms)"
      using i by (simp add: Cons_nth_drop_Suc [symmetric] length_tables)
    ultimately show ?thesis
      by (simp add: unfold snd_st fst_st)
  qed
qed

lemma convert_to_roman_greedy:
  "0 \<le> n \<Longrightarrow> convert_to_roman n = Inr (roman_greedy n (zip val syms))"
  unfolding convert_to_roman_def
  using roman_while_greedy [of n 0 "''''"] by (simp add: length_tables)

lemma section_header:
  assumes "section_body L r (i, sec) story = Inr story'"
  shows "\<exists>num name rest. section_number i sec = Inr num
           \<and> get sec ''name'' (JStr '''') = Inr (JStr name)
           \<and> story' = story
                @ Paragraph (JStr (py_str L num @ ''. '' @ str_upper L name)) SectionHeader # rest"
proof -
  from assms obtain num nm up where
    num: "section_number i sec = Inr num" and nm: "get sec ''name'' (JStr '''') = Inr nm"
    and up: "py_upper L nm = Inr up"
    and rest: "\<exists>rest. story' = story
                 @ Paragraph (JStr (py_str L num @ ''. '' @ up)) SectionHeader # rest"
    unfolding section_body_shape by (auto simp: bind_err_eq_Inr)
  from up obtain name where "nm = JStr name" "up = str_upper L name"
    by (cases nm) auto
  then show ?thesis using num nm rest by auto
qed

text \<open>
  C5. The section number is the explicit \<^verbatim>\<open>sectionNumber\<close> when the section has a
  non-empty one, and otherwise the Roman numeral of the section index plus one, which is
  the numeral of the standard subtractive scheme; the section header of the story starts
  with that number. The conversion maps 1, 4, 9, 40, 90, 2024 to I, IV, IX, XL, XC,
  MMXXIV.
\<close>

theorem section_label:
  "(get sec ''sectionNumber'' JNull = Inr v \<and> truthy v \<longrightarrow> section_number i sec = Inr v)
   \<and> (get sec ''sectionNumber'' JNull = Inr v \<and> \<not> truthy v \<longrightarrow>
        section_number i sec = Inr (JStr (roman_greedy (int i + 1) (zip val syms)))
        \<and> convert_to_roman (int i + 1) = Inr (roman_greedy (int i + 1) (zip val syms)))
   \<and> (section_body L r (i, sec) story = Inr story' \<longrightarrow>
        (\<exists>num name rest. section_number i sec = Inr num
           \<and> get sec ''name'' (JStr '''') = Inr (JStr name)
           \<and> story' = story
                @ Paragraph (JStr (py_str L num @ ''. '' @ str_upper L name)) SectionHeader # rest))
   \<and> convert_to_roman 1 = Inr ''I'' \<and> convert_to_roman 4 = Inr ''IV''
   \<and> convert_to_roman 9 = Inr ''IX'' \<and> convert_to_roman 40 = Inr ''XL''
   \<and> convert_to_roman 90 = Inr ''XC'' \<and> convert_to_roman 2024 = Inr ''MMXXIV''"
proof (intro conjI impI)
  show "section_number i sec = Inr v" if "get sec ''sectionNumber'' JNull = Inr v \<and> truthy v"
    using that by (simp add: section_number_def)
  show "section_number i sec = Inr (JStr (roman_greedy (int i + 1) (zip val syms)))"
    if "get sec ''sectionNumber'' JNull = Inr v \<and> \<not> truthy v"
    using that by (simp add: section_number_def convert_to_roman_greedy)
  show "convert_to_roman (int i + 1) = Inr (roman_greedy (int i + 1) (zip val syms))"
    by (simp add: convert_to_roman_greedy)
  show "\<exists>num name rest. section_number i sec = Inr num
           \<and> get sec ''name'' (JStr '''') = Inr (JStr name)
           \<and> story' = story
                @ Paragraph (JStr (py_str L num @ ''. '' @ str_upper L name)) SectionHeader # rest"
    if "section_body L r (i, sec) story = Inr story'"
    using that by (rule section_header)
  show "convert_to_roman 1 = Inr ''I''" by code_simp
  show "convert_to_roman 4 = Inr ''IV''" by code_simp
  show "convert_to_roman 9 = Inr ''IX''" by code_simp
  show "convert_to_roman 40 = Inr ''XL''" by code_simp
  show "convert_to_roman 90 = Inr ''XC''" by code_simp
  show "convert_to_roman 2024 = Inr ''MMXXIV''" by code_simp
qed

theorem section_label_witness:
  "get (JDict [(''sectionNumber'', JStr ''IV-b''), (''name'', JStr ''roof'')]) ''sectionNumber'' JNull
     = Inr (JStr ''IV-b'')
   \<and> truthy (JStr ''IV-b'')
   \<and> section_number 6 (JDict [(''sectionNumber'', JStr ''IV-b''), (''name'', JStr ''roof'')])
       = Inr (JStr ''IV-b'')
   \<and> get site_section ''sectionNumber'' JNull = Inr JNull
   \<and> \<not> truthy JNull
   \<and> section_number 3 site_section = Inr (JStr ''IV'')
   \<and> section_body ascii_lib (\<lambda>c. False) (0, site_section) [] = Inr site_blocks
   \<and> (\<exists>num name rest. section_number 0 site_section = Inr num
         \<and> get site_section ''name'' (JStr '''') = Inr (JStr name)
         \<and> site_blocks = []
              @ Paragraph (JStr (py_str ascii_lib num @ ''. '' @ str_upper ascii_lib name))
                  SectionHeader # rest)"
proof -
  let ?roof = "JDict [(''sectionNumber'', JStr ''IV-b''), (''name'', JStr ''roof'')]"
  have explicit: "get ?roof ''sectionNumber'' JNull = Inr (JStr ''IV-b'') \<and> truthy (JStr ''IV-b'')"
    by simp
  have absent: "get site_section ''sectionNumber'' JNull = Inr JNull \<and> \<not> truthy JNull"
    by (simp add: site_section_def)
  have four: "roman_greedy (int 3 + 1) (zip val syms) = ''IV''"
    by code_simp
  have blocks: "section_body ascii_lib (\<lambda>c. False) (0, site_section) [] = Inr site_blocks"
    by code_simp
  note a = section_label [of ?roof "JStr ''IV-b''" 6, THEN conjunct1, rule_format, OF explicit]
  note b = section_label [of site_section JNull 3, THEN conjunct2, THEN conjunct1,
      rule_format, OF absent, THEN conjunct1]
  note c = section_label [of site_section _ 0 ascii_lib "\<lambda>c. False" "[]" site_blocks,
      THEN conjunct2, THEN conjunct2, THEN conjunct1, rule_format, OF blocks]
  have b': "section_number 3 site_section = Inr (JStr ''IV'')"
    using b by (simp only: four)
  show ?thesis
    by (intro conjI explicit [THEN conjunct1] explicit [THEN conjunct2]
        absent [THEN conjunct1] absent [THEN conjunct2] a b' blocks c)
qed

section \<open>The entry point\<close>

text \<open>
  C3. With an empty list of sections the generator raises the validation error and
  returns no path, whatever the metadata and the output path; the file system is left as
  it was, so nothing has been created or written.
\<close>

theorem empty_sections_rejected:
  "generate_trec_pdf L OS [] metadata output_path fs
     = (Inl (ValueError ''Sections list cannot be empty''), fs)"
  by (simp add: generate_trec_pdf_def)

lemma report_id_other_key:
  "k \<noteq> ''reportId'' \<Longrightarrow> k \<noteq> ''report_id'' \<Longrightarrow> report_id_of ((k, v) # md) = report_id_of md"
  by (auto simp: report_id_of_def split: option.splits)

lemma generate_same_report_id:
  assumes "report_id_of md1 = report_id_of md2"
  shows "generate_trec_pdf L OS sections md1 output_path fs
         = generate_trec_pdf L OS sections md2 output_path fs"
  unfolding generate_trec_pdf_def assms ..

text \<open>
  C10. The generator reads the metadata only for the report identifier (\<^verbatim>\<open>reportId\<close>,
  else \<^verbatim>\<open>report_id\<close>, else "N/A"): two metadata dictionaries with the same identifier give
  the same result, the same document handed to reportlab and the same page header;
  setting any other key, such as inspectionDate, propertyAddress, inspectorName or
  inspectorLicense, changes nothing.
\<close>

theorem metadata_only_report_id:
  "(report_id_of md1 = report_id_of md2 \<longrightarrow>
      generate_trec_pdf L OS sections md1 output_path fs
        = generate_trec_pdf L OS sections md2 output_path fs
      \<and> draw_header L (report_id_of md1) = draw_header L (report_id_of md2))
   \<and> (k \<noteq> ''reportId'' \<and> k \<noteq> ''report_id'' \<longrightarrow>
        generate_trec_pdf L OS sections ((k, v) # md) output_path fs
          = generate_trec_pdf L OS sections md output_path fs)"
  using generate_same_report_id [of md1 md2 L OS sections output_path fs]
    generate_same_report_id [of "(k, v) # md" md L OS sections output_path fs]
    report_id_other_key [of k v md]
  by auto

theorem metadata_only_report_id_witness:
  "report_id_of [(''inspectorName'', JStr ''A''), (''reportId'', JStr ''R-1'')]
     = report_id_of [(''reportId'', JStr ''R-1''), (''inspectionDate'', JStr ''2025-11-01'')]
   \<and> generate_trec_pdf ascii_lib list_os demo_sections
        [(''inspectorName'', JStr ''A''), (''reportId'', JStr ''R-1'')] ''out/r.pdf'' []
       = generate_trec_pdf ascii_lib list_os demo_sections
        [(''reportId'', JStr ''R-1''), (''inspectionDate'', JStr ''2025-11-01'')] ''out/r.pdf'' []
   \<and> generate_trec_pdf ascii_lib list_os demo_sections
        [(''propertyAddress'', JStr ''123 Main St''), (''report_id'', JStr ''R-2'')] ''out/r.pdf'' []
       = generate_trec_pdf ascii_lib list_os demo_sections
        [(''report_id'', JStr ''R-2'')] ''out/r.pdf'' []
   \<and> generate_trec_pdf ascii_lib list_os demo_sections [(''report_id'', JStr ''R-2'')] ''out/r.pdf'' []
       = (Inr ''out/r.pdf'', [''out/r.pdf'', ''out''])"
proof -
  let ?a = "[(''inspectorName'', JStr ''A''), (''reportId'', JStr ''R-1'')]"
  let ?b = "[(''reportId'', JStr ''R-1''), (''inspectionDate'', JStr ''2025-11-01'')]"
  have same: "report_id_of ?a = report_id_of ?b"
    by (simp add: report_id_of_def)
  have other: "''propertyAddress'' \<noteq> ''reportId'' \<and> ''propertyAddress'' \<noteq> ''report_id''"
    by simp
  have run: "generate_trec_pdf ascii_lib list_os demo_sections [(''report_id'', JStr ''R-2'')]
      ''out/r.pdf'' [] = (Inr ''out/r.pdf'', [''out/r.pdf'', ''out''])"
    by code_simp
  note a = metadata_only_report_id [of ?a ?b ascii_lib list_os demo_sections "''out/r.pdf''" "[]",
      THEN conjunct1, rule_format, OF same, THEN conjunct1]
  note b = metadata_only_report_id [of _ _ ascii_lib list_os demo_sections "''out/r.pdf''" "[]"
      "''propertyAddress''" "JStr ''123 Main St''" "[(''report_id'', JStr ''R-2'')]",
      THEN conjunct2, rule_format, OF other]
  show ?thesis
    by (intro conjI same a b run)
qed

end
